theory Spec2Isabelle
  imports Complex_Main "HOL-Library.Multiset" "HOL-Library.Product_Lexorder"
begin


section \<open>Device arrays and floating-point values\<close>

text \<open>
  The kernels of \<open>_compressed.py\<close> read raw device pointers. A read inside the array
  returns the element; a read outside it returns whatever the device memory holds there,
  which the model takes as a parameter \<open>oob\<close> (a function of the position read), so that
  every theorem holds for all memory contents. Positions and index values are C \<open>int\<close>s,
  modelled as \<open>int\<close> (the kernels only compare, increment and subtract them).
\<close>

definition dev_read :: "(int \<Rightarrow> 'a) \<Rightarrow> 'a list \<Rightarrow> int \<Rightarrow> 'a" where
  "dev_read oob a i = (if 0 \<le> i \<and> i < int (length a) then a ! nat i else oob i)"

text \<open>
  A \<open>double\<close> is either NaN or a number of a linearly ordered type. The kernels never
  compute with the values: they copy and compare them, so no rounding takes place.
\<close>

datatype 'a fl = NaN | Num 'a

text \<open>The template parameter \<open>${op}\<close>: greater-than for max, less-than for min. A comparison with NaN is false.\<close>

datatype cmp_op = OpGt | OpLt

fun holds :: "cmp_op \<Rightarrow> ('a::linorder) fl \<Rightarrow> 'a fl \<Rightarrow> bool" where
  "holds OpGt (Num a) (Num b) = (a > b)"
| "holds OpLt (Num a) (Num b) = (a < b)"
| "holds _ _ _ = False"

text \<open>The template parameter \<open>${cond}\<close>: \<open>block_length == length\<close> or \<open>block_length > 0\<close>.\<close>

datatype init_cond = BlockDense | BlockNonzero

fun cond_holds :: "init_cond \<Rightarrow> int \<Rightarrow> int \<Rightarrow> bool" where
  "cond_holds BlockDense block_length len = (block_length = len)"
| "cond_holds BlockNonzero block_length len = (block_length > 0)"

section \<open>The min/max reduction kernel\<close>

text \<open>\<open>running_value\<close> before the loop of \<open>_max_min_reduction_code\<close>.\<close>

definition initial_value ::
  "init_cond \<Rightarrow> (int \<Rightarrow> ('a::{linorder,zero}) fl) \<Rightarrow> 'a fl list \<Rightarrow> int \<Rightarrow> int \<Rightarrow> int \<Rightarrow> 'a fl" where
  "initial_value c oobd dat xt yt len =
     (if cond_holds c (yt - xt) len then dev_read oobd dat xt else Num 0)"

text \<open>
  The loop \<open>for (entry = x[tid]; entry < y[tid]; entry++)\<close>, over the list of the
  entries still to visit; \<open>d\<close> reads \<open>data[entry]\<close>. A NaN ends the loop.
\<close>

fun reduce_loop :: "cmp_op \<Rightarrow> (int \<Rightarrow> ('a::linorder) fl) \<Rightarrow> int list \<Rightarrow> 'a fl \<Rightarrow> 'a fl" where
  "reduce_loop ope d [] running = running"
| "reduce_loop ope d (entry # es) running =
     (if d entry = NaN then NaN
      else reduce_loop ope d es (if holds ope (d entry) running then d entry else running))"

text \<open>One thread of the kernel: the value stored in \<open>z[tid]\<close>.\<close>

definition max_min_reduction ::
  "cmp_op \<Rightarrow> init_cond \<Rightarrow> (int \<Rightarrow> int) \<Rightarrow> (int \<Rightarrow> ('a::{linorder,zero}) fl) \<Rightarrow>
   'a fl list \<Rightarrow> int list \<Rightarrow> int list \<Rightarrow> int \<Rightarrow> int \<Rightarrow> 'a fl" where
  "max_min_reduction ope c oobi oobd dat x y len tid =
     (let xt = dev_read oobi x tid; yt = dev_read oobi y tid
      in reduce_loop ope (dev_read oobd dat) [xt..yt - 1] (initial_value c oobd dat xt yt len))"

section \<open>The argmin/argmax reduction kernel\<close>

text \<open>
  The scan for the first zero of a block that is not dense:
  \<open>for (data_index = 0; data_index < length; data_index++)\<close> with its \<open>break\<close>.
  The C condition reads \<open>indices[x[tid] + data_index]\<close> before it tests the end of the block.
\<close>

function first_gap :: "(int \<Rightarrow> int) \<Rightarrow> int list \<Rightarrow> int \<Rightarrow> int \<Rightarrow> int \<Rightarrow> int \<Rightarrow> int" where
  "first_gap oobi ind xt yt len data_index =
     (if data_index < len then
        (if data_index \<noteq> dev_read oobi ind (xt + data_index) \<or> xt + data_index \<ge> yt
         then data_index
         else first_gap oobi ind xt yt len (data_index + 1))
      else data_index)"
  by pat_completeness auto
termination
  by (relation "measure (\<lambda>(oobi, ind, xt, yt, len, data_index). nat (len - data_index))") auto

declare first_gap.simps [simp del]

text \<open>\<open>(data_index, data_value)\<close> before the loop of \<open>_argmax_argmin_code\<close>.\<close>

definition arg_initial ::
  "(int \<Rightarrow> int) \<Rightarrow> (int \<Rightarrow> ('a::{linorder,zero}) fl) \<Rightarrow> 'a fl list \<Rightarrow> int list \<Rightarrow>
   int \<Rightarrow> int \<Rightarrow> int \<Rightarrow> int \<times> 'a fl" where
  "arg_initial oobi oobd dat ind xt yt len =
     (let block_length = yt - xt in
      if block_length = len then (dev_read oobi ind xt, dev_read oobd dat xt)
      else if block_length > 0 then (first_gap oobi ind xt yt len 0, Num 0)
      else (0, Num 0))"

fun arg_loop ::
  "cmp_op \<Rightarrow> (int \<Rightarrow> ('a::linorder) fl) \<Rightarrow> (int \<Rightarrow> int) \<Rightarrow> int list \<Rightarrow> int \<times> 'a fl \<Rightarrow> int \<times> 'a fl" where
  "arg_loop ope d ix [] st = st"
| "arg_loop ope d ix (entry # es) st =
     (if d entry = NaN then (0, NaN)
      else arg_loop ope d ix es (if holds ope (d entry) (snd st) then (ix entry, d entry) else st))"

text \<open>One thread of the kernel: the index stored in \<open>z[tid]\<close>.\<close>

definition arg_reduction ::
  "cmp_op \<Rightarrow> (int \<Rightarrow> int) \<Rightarrow> (int \<Rightarrow> ('a::{linorder,zero}) fl) \<Rightarrow>
   'a fl list \<Rightarrow> int list \<Rightarrow> int list \<Rightarrow> int list \<Rightarrow> int \<Rightarrow> int \<Rightarrow> int" where
  "arg_reduction ope oobi oobd dat ind x y len tid =
     (let xt = dev_read oobi x tid; yt = dev_read oobi y tid
      in fst (arg_loop ope (dev_read oobd dat) (dev_read oobi ind) [xt..yt - 1]
                (arg_initial oobi oobd dat ind xt yt len)))"

section \<open>The compressed matrix\<close>

text \<open>
  The class \<open>_compressed_sparse_matrix\<close>: the three backing arrays, the shape and the
  two cached flags. The attributes \<open>_has_sorted_indices\<close> and \<open>_has_canonical_format\<close>
  exist only once they have been set (\<open>hasattr\<close>), hence \<open>bool option\<close>.
  \<open>launches\<close> counts the runs of the two per-row check kernels.
\<close>

datatype format = CSR | CSC

record 'a csmat =
  fmt :: format
  shape :: "nat \<times> nat"
  data :: "'a list"
  indices :: "int list"
  indptr :: "int list"
  sorted_attr :: "bool option"
  canonical_attr :: "bool option"
  launches :: nat

text \<open>
  Modelled from the spec: \<open>_swap\<close>, which the base class leaves to its two subclasses
  (not among the sources): the identity for the row-major format, the exchange for the
  column-major one.
\<close>

fun swap :: "format \<Rightarrow> 'b \<times> 'b \<Rightarrow> 'b \<times> 'b" where
  "swap CSR (x, y) = (x, y)"
| "swap CSC (x, y) = (y, x)"

text \<open>\<open>getnnz\<close> with \<open>axis=None\<close>: \<open>self.data.size\<close>.\<close>

definition nnz :: "'a csmat \<Rightarrow> nat" where
  "nnz m = length (data m)"

text \<open>Python's \<open>shape[k]\<close> on the pair: \<open>None\<close> stands for the IndexError.\<close>

definition tuple_get :: "nat \<times> nat \<Rightarrow> int \<Rightarrow> nat option" where
  "tuple_get s k =
     (if k = 0 \<or> k = -2 then Some (fst s)
      else if k = 1 \<or> k = -1 then Some (snd s)
      else None)"

section \<open>Reduce operations\<close>

datatype ufunc = Amax | Amin

text \<open>The dictionary \<open>kerns\<close> of \<open>_minor_reduce\<close>: the kernel is a pair of template parameters.\<close>

fun kerns :: "bool \<Rightarrow> ufunc \<Rightarrow> cmp_op \<times> init_cond" where
  "kerns True Amax = (OpGt, BlockNonzero)"
| "kerns True Amin = (OpLt, BlockNonzero)"
| "kerns False Amax = (OpGt, BlockDense)"
| "kerns False Amin = (OpLt, BlockDense)"

text \<open>
  \<open>_minor_reduce\<close>: one block of one thread per entry of the output, on
  \<open>indptr[:len(indptr) - 1]\<close> and \<open>indptr[1:]\<close>.
\<close>

definition minor_reduce ::
  "(int \<Rightarrow> int) \<Rightarrow> (int \<Rightarrow> ('a::{linorder,zero}) fl) \<Rightarrow> 'a fl csmat \<Rightarrow> ufunc \<Rightarrow> int \<Rightarrow> bool \<Rightarrow>
   'a fl list option" where
  "minor_reduce oobi oobd m uf axis nonzero =
     (case tuple_get (shape m) (1 - axis) of None \<Rightarrow> None
      | Some out_shape \<Rightarrow>
     (case tuple_get (shape m) axis of None \<Rightarrow> None
      | Some len \<Rightarrow>
        Some (map (\<lambda>tid. max_min_reduction (fst (kerns nonzero uf)) (snd (kerns nonzero uf))
                           oobi oobd (data m) (butlast (indptr m)) (tl (indptr m))
                           (int len) (int tid))
                  [0..<out_shape])))"

datatype arg_ufunc = Argmax | Argmin

fun arg_op :: "arg_ufunc \<Rightarrow> cmp_op" where
  "arg_op Argmax = OpGt"
| "arg_op Argmin = OpLt"

text \<open>\<open>_arg_minor_reduce\<close>.\<close>

definition arg_minor_reduce ::
  "(int \<Rightarrow> int) \<Rightarrow> (int \<Rightarrow> ('a::{linorder,zero}) fl) \<Rightarrow> 'a fl csmat \<Rightarrow> arg_ufunc \<Rightarrow> int \<Rightarrow>
   int list option" where
  "arg_minor_reduce oobi oobd m uf axis =
     (case tuple_get (shape m) (1 - axis) of None \<Rightarrow> None
      | Some out_shape \<Rightarrow>
     (case tuple_get (shape m) axis of None \<Rightarrow> None
      | Some len \<Rightarrow>
        Some (map (\<lambda>tid. arg_reduction (arg_op uf) oobi oobd (data m) (indices m)
                           (butlast (indptr m)) (tl (indptr m)) (int len) (int tid))
                  [0..<out_shape])))"

text \<open>Entry \<open>r\<close> of the array a reduction returns, when it returned one that long.\<close>

definition row_result :: "'b list option \<Rightarrow> nat \<Rightarrow> 'b option" where
  "row_result res r =
     (case res of None \<Rightarrow> None
      | Some out \<Rightarrow> if r < length out then Some (out ! r) else None)"

section \<open>Errors\<close>

text \<open>
  The exceptions the modelled methods raise. \<open>IndexError_ge idx bound\<close> is the
  IndexError with the message \<open>index (idx) out of range (>= bound)\<close>,
  \<open>IndexError_lt idx bound\<close> the one with the message \<open>index (idx) out of range (< -bound)\<close>;
  \<open>IndexError\<close> and \<open>ValueError\<close> are raised by the array library itself.
  A mutating method returns the exception it raised, if any, and the object as it is then.
\<close>

datatype error =
    IndexError_ge int int
  | IndexError_lt int int
  | IndexError
  | ValueError string

section \<open>Array primitives\<close>

text \<open>
  The array library is not among the sources; its functions are modelled after NumPy's
  documented behaviour, on lists. \<open>argsort\<close> is stable (the source relies on it:
  \<open>order = cupy.argsort(i)  # stable for duplicates\<close>).
\<close>

definition argsort :: "int list \<Rightarrow> nat list" where
  "argsort xs = sort_key (\<lambda>k. xs ! k) [0..<length xs]"

definition take_idx :: "'b list \<Rightarrow> nat list \<Rightarrow> 'b list" where
  "take_idx xs order = map (\<lambda>k. xs ! k) order"

definition unique :: "int list \<Rightarrow> int list" where
  "unique xs = sort (remdups xs)"

definition searchsorted :: "int list \<Rightarrow> int \<Rightarrow> nat" where
  "searchsorted rows v = length (takeWhile (\<lambda>r. r < v) rows)"

text \<open>\<open>cupy.add.at(a, ks, 1)\<close>.\<close>

definition add_at :: "int list \<Rightarrow> nat list \<Rightarrow> int list" where
  "add_at a ks = fold (\<lambda>k a. a[k := a ! k + 1]) ks a"

definition diff :: "int list \<Rightarrow> int list" where
  "diff xs = map (\<lambda>k. xs ! Suc k - xs ! k) [0..<length xs - 1]"

fun cumsum_from :: "int \<Rightarrow> int list \<Rightarrow> int list" where
  "cumsum_from acc [] = []"
| "cumsum_from acc (x # xs) = (acc + x) # cumsum_from (acc + x) xs"

definition cumsum :: "int list \<Rightarrow> int list" where
  "cumsum xs = cumsum_from 0 xs"

text \<open>A Python index into an array of length \<open>n\<close>; \<open>None\<close> stands for the IndexError.\<close>

definition py_index :: "nat \<Rightarrow> int \<Rightarrow> nat option" where
  "py_index n k =
     (if 0 \<le> k \<and> k < int n then Some (nat k)
      else if - int n \<le> k \<and> k < 0 then Some (nat (k + int n))
      else None)"

text \<open>\<open>a[ks] = vs\<close> and \<open>a[ks] += vs\<close> for an index array \<open>ks\<close>.\<close>

definition fancy_set :: "int list \<Rightarrow> int list \<Rightarrow> int list \<Rightarrow> int list option" where
  "fancy_set a ks vs =
     (if list_all (\<lambda>k. py_index (length a) k \<noteq> None) ks
      then Some (fold (\<lambda>(k, v) a. a[the (py_index (length a) k) := v]) (zip ks vs) a)
      else None)"

definition fancy_add :: "int list \<Rightarrow> int list \<Rightarrow> int list \<Rightarrow> int list option" where
  "fancy_add a ks vs =
     (if list_all (\<lambda>k. py_index (length a) k \<noteq> None) ks
      then fancy_set a ks (map (\<lambda>(k, v). a ! the (py_index (length a) k) + v) (zip ks vs))
      else None)"

text \<open>\<open>xs[mask]\<close> for a boolean mask of the length of \<open>xs\<close>.\<close>

definition compress :: "bool list \<Rightarrow> 'b list \<Rightarrow> 'b list" where
  "compress msk xs = map snd (filter fst (zip msk xs))"

text \<open>
  \<open>a[offsets] = vs\<close> and \<open>a[offsets] = v\<close> for nonnegative offsets; an offset past the
  end of \<open>a\<close> writes nothing here.
\<close>

definition scatter :: "'b list \<Rightarrow> int list \<Rightarrow> 'b list \<Rightarrow> 'b list" where
  "scatter a offsets vs = fold (\<lambda>(k, v) a. a[nat k := v]) (zip offsets vs) a"

definition scatter_fill :: "'b list \<Rightarrow> int list \<Rightarrow> 'b \<Rightarrow> 'b list" where
  "scatter_fill a offsets v = fold (\<lambda>k a. a[nat k := v]) offsets a"

text \<open>\<open>xs[lo:hi]\<close> for \<open>0 \<le> lo\<close>.\<close>

definition slice :: "'b list \<Rightarrow> int \<Rightarrow> int \<Rightarrow> 'b list" where
  "slice xs lo hi = take (nat (hi - lo)) (drop (nat lo) xs)"

subsection \<open>Entry numbers in single precision\<close>

text \<open>
  \<open>_set_many\<close> and \<open>_zero_many\<close> number the stored entries with
  \<open>cupy.arange(self.nnz, dtype=cupy.float32)\<close>. A float32 has a significand of 24 bits:
  \<open>float32_of_nat n\<close> is the value of the float32 nearest to \<open>n\<close> (ties to even), which is
  \<open>n\<close> itself up to \<open>2 ^ 24\<close>. The values are whole numbers, kept as \<open>int\<close>s.
\<close>

fun bit_len :: "nat \<Rightarrow> nat" where
  "bit_len n = (if n = 0 then 0 else Suc (bit_len (n div 2)))"

declare bit_len.simps [simp del]

definition float32_of_nat :: "nat \<Rightarrow> nat" where
  "float32_of_nat n =
     (if n < 2 ^ 24 then n
      else let e = bit_len n - 24; q = n div 2 ^ e; r = n mod 2 ^ e; h = 2 ^ (e - 1)
           in (if r > h \<or> (r = h \<and> odd q) then q + 1 else q) * 2 ^ e)"

definition arange_float32 :: "nat \<Rightarrow> int list" where
  "arange_float32 n = map (\<lambda>k. int (float32_of_nat k)) [0..<n]"

section \<open>Construction\<close>

text \<open>\<open>__init__\<close> from a shape alone: no stored entry.\<close>

definition empty_matrix :: "format \<Rightarrow> nat \<times> nat \<Rightarrow> 'a csmat" where
  "empty_matrix f shp =
     \<lparr>fmt = f, shape = shp, data = [], indices = [],
      indptr = replicate (fst (swap f shp) + 1) 0,
      sorted_attr = None, canonical_attr = None, launches = 0\<rparr>"

text \<open>
  \<open>__init__\<close> from \<open>(data, indices, indptr)\<close> with a shape, as \<open>csr_matrix\<close> runs it:
  the two checks on the sizes.
\<close>

definition csr_matrix :: "'v list \<times> int list \<times> int list \<Rightarrow> nat \<times> nat \<Rightarrow> error + 'v csmat" where
  "csr_matrix arg1 shp =
     (case arg1 of (dat, ind, ip) \<Rightarrow>
        if length dat \<noteq> length ind
        then Inl (ValueError ''indices and data should have the same size'')
        else if length ip \<noteq> fst (swap CSR shp) + 1
        then Inl (ValueError ''index pointer size should be major + 1'')
        else Inr \<lparr>fmt = CSR, shape = shp, data = dat, indices = ind, indptr = ip,
                  sorted_attr = None, canonical_attr = None, launches = 0\<rparr>)"

section \<open>The cached flags\<close>

text \<open>
  The two check kernels, for the row \<open>i\<close>:
  \<open>for (jj = indptr[i]; jj < indptr[i+1] - 1; jj++)\<close>.
\<close>

definition has_sorted_indices_kern :: "(int \<Rightarrow> int) \<Rightarrow> int list \<Rightarrow> int list \<Rightarrow> int \<Rightarrow> bool" where
  "has_sorted_indices_kern oobi ip ix i =
     list_all (\<lambda>jj. \<not> dev_read oobi ix jj > dev_read oobi ix (jj + 1))
       [dev_read oobi ip i..dev_read oobi ip (i + 1) - 1 - 1]"

definition has_canonical_format_kern :: "(int \<Rightarrow> int) \<Rightarrow> int list \<Rightarrow> int list \<Rightarrow> int \<Rightarrow> bool" where
  "has_canonical_format_kern oobi ip ix i =
     (if dev_read oobi ip i > dev_read oobi ip (i + 1) then False
      else list_all (\<lambda>jj. \<not> dev_read oobi ix jj \<ge> dev_read oobi ix (jj + 1))
             [dev_read oobi ip i..dev_read oobi ip (i + 1) - 1 - 1])"

text \<open>The launch with \<open>size=self.indptr.size-1\<close>, followed by \<open>.all()\<close>.\<close>

definition all_rows :: "(int \<Rightarrow> bool) \<Rightarrow> 'a csmat \<Rightarrow> bool" where
  "all_rows kern m = list_all kern (map int [0..<length (indptr m) - 1])"

text \<open>\<open>__get_sorted\<close> and \<open>__set_sorted\<close>: the property \<open>has_sorted_indices\<close>.\<close>

definition get_sorted :: "(int \<Rightarrow> int) \<Rightarrow> 'a csmat \<Rightarrow> bool \<times> 'a csmat" where
  "get_sorted oobi m =
     (if length (data m) = 0 then (True, m\<lparr>sorted_attr := Some True\<rparr>)
      else case sorted_attr m of
        None \<Rightarrow>
          (let b = all_rows (has_sorted_indices_kern oobi (indptr m) (indices m)) m
           in (b, m\<lparr>sorted_attr := Some b, launches := launches m + 1\<rparr>))
      | Some b \<Rightarrow> (b, m))"

definition set_sorted :: "'a csmat \<Rightarrow> bool \<Rightarrow> 'a csmat" where
  "set_sorted m val = m\<lparr>sorted_attr := Some val\<rparr>"

text \<open>
  \<open>__get_has_canonical_format\<close> and \<open>__set_has_canonical_format\<close>: the property
  \<open>has_canonical_format\<close>. \<open>getattr(self, '_has_sorted_indices', True)\<close> reads the
  attribute, not the property.
\<close>

definition get_has_canonical_format :: "(int \<Rightarrow> int) \<Rightarrow> 'a csmat \<Rightarrow> bool \<times> 'a csmat" where
  "get_has_canonical_format oobi m =
     (if length (data m) = 0 then (True, m\<lparr>canonical_attr := Some True\<rparr>)
      else if \<not> (case sorted_attr m of None \<Rightarrow> True | Some b \<Rightarrow> b)
      then (False, m\<lparr>canonical_attr := Some False\<rparr>)
      else case canonical_attr m of
        None \<Rightarrow>
          (let b = all_rows (has_canonical_format_kern oobi (indptr m) (indices m)) m
           in (b, m\<lparr>canonical_attr := Some b, launches := launches m + 1\<rparr>))
      | Some b \<Rightarrow> (b, m))"

definition set_has_canonical_format :: "'a csmat \<Rightarrow> bool \<Rightarrow> 'a csmat" where
  "set_has_canonical_format m val =
     (let m1 = m\<lparr>canonical_attr := Some val\<rparr>
      in if val then set_sorted m1 True else m1)"

section \<open>Indexing\<close>

text \<open>
  Modelled from the spec: the lookups of the module \<open>_index\<close>, which is not among the
  sources. The stored entries of the major row \<open>r\<close> occupy the positions
  \<open>[indptr[r], indptr[r+1])\<close>; a lookup searches that range of \<open>indices\<close> for the minor
  index and finds the first position holding it.
\<close>

definition row_positions :: "int list \<Rightarrow> int \<Rightarrow> nat list" where
  "row_positions Ap r =
     (if 0 \<le> r \<and> nat r + 1 < length Ap then [nat (Ap ! nat r)..<nat (Ap ! (nat r + 1))] else [])"

definition find_entry :: "int list \<Rightarrow> int list \<Rightarrow> int \<Rightarrow> int \<Rightarrow> nat option" where
  "find_entry Ap Aj r c = find (\<lambda>p. p < length Aj \<and> Aj ! p = c) (row_positions Ap r)"

text \<open>A negative index counts from the end of its axis.\<close>

definition wrap_neg :: "int \<Rightarrow> int \<Rightarrow> int" where
  "wrap_neg n k = (if k < 0 then k + n else k)"

text \<open>
  Modelled from the spec: \<open>_index._csr_sample_values\<close> (inner indexing): each coordinate
  is looked up on its own; an absent entry resolves to \<open>not_found_val\<close>.
\<close>

definition csr_sample_values ::
  "nat \<Rightarrow> nat \<Rightarrow> int list \<Rightarrow> int list \<Rightarrow> 'v list \<Rightarrow> int list \<Rightarrow> int list \<Rightarrow> 'v \<Rightarrow> 'v list" where
  "csr_sample_values n_row n_col Ap Aj Ax Bi Bj not_found_val =
     map (\<lambda>(i, j).
            case find_entry Ap Aj (wrap_neg (int n_row) i) (wrap_neg (int n_col) j) of
              None \<Rightarrow> not_found_val
            | Some p \<Rightarrow> if p < length Ax then Ax ! p else not_found_val)
         (zip Bi Bj)"

text \<open>\<open>_get_arrayXarray\<close> for one-dimensional index arrays.\<close>

definition get_arrayXarray :: "'v csmat \<Rightarrow> int list \<Rightarrow> int list \<Rightarrow> 'v \<Rightarrow> 'v list" where
  "get_arrayXarray m row col not_found_val =
     (case swap (fmt m) (shape m) of (M, N) \<Rightarrow>
      case swap (fmt m) (row, col) of (major, minor) \<Rightarrow>
        csr_sample_values M N (indptr m) (indices m) (data m) major minor not_found_val)"

text \<open>
  Modelled from the spec: \<open>_index._get_csr_submatrix_major_axis\<close>, the major rows
  \<open>[start, stop)\<close> as a triple \<open>(data, indices, indptr)\<close>, and
  \<open>_index._compress_getitem_kern\<close>, the value read at a minor index of a single row:
  zero when the row stores nothing there, the stored value when it stores one entry, and
  the sum of the stored values when a matrix that is not canonical stores several
  (duplicates are summed on read).
\<close>

definition get_csr_submatrix_major_axis ::
  "'v list \<Rightarrow> int list \<Rightarrow> int list \<Rightarrow> nat \<Rightarrow> nat \<Rightarrow> 'v list \<times> int list \<times> int list" where
  "get_csr_submatrix_major_axis Ax Aj Ap start stop =
     (slice Ax (Ap ! start) (Ap ! stop), slice Aj (Ap ! start) (Ap ! stop),
      map (\<lambda>p. p - Ap ! start) (take (stop - start + 1) (drop start Ap)))"

definition compress_getitem :: "('v::monoid_add) list \<Rightarrow> int list \<Rightarrow> int \<Rightarrow> 'v" where
  "compress_getitem dat ind minor =
     sum_list (map fst (filter (\<lambda>(d, c). c = minor) (zip dat ind)))"

text \<open>\<open>_get_intXint\<close>: the value read, and the object afterwards.\<close>

definition get_intXint :: "('a::monoid_add) csmat \<Rightarrow> nat \<Rightarrow> nat \<Rightarrow> 'a \<times> 'a csmat" where
  "get_intXint m row col =
     (case swap (fmt m) (row, col) of (major, minor) \<Rightarrow>
      case get_csr_submatrix_major_axis (data m) (indices m) (indptr m) major (major + 1) of
        (dat, ind, ip) \<Rightarrow> (compress_getitem dat ind (int minor), m))"

section \<open>Mutation\<close>

text \<open>
  \<open>check_bounds\<close> of \<open>_prepare_indices\<close>: \<open>None\<close> when both tests pass. The maximum of an
  empty array is the library's ValueError.
\<close>

definition check_bounds :: "int list \<Rightarrow> int \<Rightarrow> error option" where
  "check_bounds ixs bound =
     (case ixs of
        [] \<Rightarrow> Some (ValueError ''zero-size array to reduction operation'')
      | a # as \<Rightarrow>
          (let idx = fold max as a in
           if idx \<ge> bound then Some (IndexError_ge idx bound)
           else let idx = fold min as a in
           if idx < - bound then Some (IndexError_lt idx bound)
           else None))"

text \<open>
  The index arrays of a matrix hold signed 32-bit integers (\<open>__init__\<close> stores
  \<open>indices.astype('i')\<close> and \<open>indptr.astype('i')\<close>). \<open>to_index\<close> is the conversion of an
  integer of a wider array to that type: the value modulo \<open>2 ^ 32\<close>, in two's complement.
\<close>

definition to_index :: "int \<Rightarrow> int" where
  "to_index k = (k + 2 ^ 31) mod 2 ^ 32 - 2 ^ 31"

text \<open>
  \<open>_prepare_indices\<close>: \<open>i\<close> and \<open>j\<close> are converted to the index type of \<open>indptr\<close> and
  \<open>indices\<close>, then checked against the bounds.
\<close>

definition prepare_indices ::
  "'a csmat \<Rightarrow> int list \<Rightarrow> int list \<Rightarrow> error + (int list \<times> int list \<times> nat \<times> nat)" where
  "prepare_indices m i0 j0 =
     (case swap (fmt m) (shape m) of (M, N) \<Rightarrow>
      let i = map to_index i0; j = map to_index j0 in
      case check_bounds i (int M) of Some e \<Rightarrow> Inl e
      | None \<Rightarrow>
     (case check_bounds j (int N) of Some e \<Rightarrow> Inl e
      | None \<Rightarrow> Inr (i, j, M, N)))"

text \<open>
  Modelled from the spec: \<open>_index._select_last_indices\<close>. The batch, already sorted by
  major index, is ordered by (major, minor) with ties in their batch order, and of the
  entries of one (major, minor) group only the last is kept.
\<close>

fun keep_last :: "(int \<times> int \<times> 'a) list \<Rightarrow> (int \<times> int \<times> 'a) list" where
  "keep_last [] = []"
| "keep_last [t] = [t]"
| "keep_last (t # t' # ts) =
     (if fst t = fst t' \<and> fst (snd t) = fst (snd t') then keep_last (t' # ts)
      else t # keep_last (t' # ts))"

definition select_last_indices ::
  "int list \<Rightarrow> int list \<Rightarrow> 'a list \<Rightarrow> int list \<times> int list \<times> 'a list" where
  "select_last_indices i j x =
     (let ts = keep_last (sort_key (\<lambda>t. (fst t, fst (snd t))) (zip i (zip j x)))
      in (map fst ts, map (\<lambda>t. fst (snd t)) ts, map (\<lambda>t. snd (snd t)) ts))"

text \<open>
  Modelled from the spec: \<open>_index._insert_many_populate_arrays\<close>. For each major row the
  entries already stored and the entries to insert (the range of the row in
  \<open>insertion_indptr\<close>) are interleaved by minor index; the rows follow one another in the
  new arrays, row \<open>r\<close> at \<open>[Bp[r], Bp[r+1])\<close>.
\<close>

fun merge_entries :: "(int \<times> 'a) list \<Rightarrow> (int \<times> 'a) list \<Rightarrow> (int \<times> 'a) list" where
  "merge_entries [] ys = ys"
| "merge_entries xs [] = xs"
| "merge_entries (s # xs) (t # ys) =
     (if fst s \<le> fst t then s # merge_entries xs (t # ys) else t # merge_entries (s # xs) ys)"

definition populated_row ::
  "int list \<Rightarrow> 'a list \<Rightarrow> int list \<Rightarrow> int list \<Rightarrow> int list \<Rightarrow> 'a list \<Rightarrow> nat \<Rightarrow> (int \<times> 'a) list" where
  "populated_row insert_indices insert_values insertion_indptr Ap Aj Ax r =
     merge_entries
       (zip (slice Aj (Ap ! r) (Ap ! Suc r)) (slice Ax (Ap ! r) (Ap ! Suc r)))
       (zip (slice insert_indices (insertion_indptr ! r) (insertion_indptr ! Suc r))
            (slice insert_values (insertion_indptr ! r) (insertion_indptr ! Suc r)))"

definition insert_many_populate_arrays ::
  "int list \<Rightarrow> 'a list \<Rightarrow> int list \<Rightarrow> int list \<Rightarrow> int list \<Rightarrow> 'a list \<Rightarrow> nat \<Rightarrow>
   int list \<times> 'a list" where
  "insert_many_populate_arrays insert_indices insert_values insertion_indptr Ap Aj Ax n =
     (let rows = map (populated_row insert_indices insert_values insertion_indptr Ap Aj Ax)
                   [0..<n]
      in (concat (map (map fst) rows), concat (map (map snd) rows)))"

text \<open>\<open>_perform_insert\<close>.\<close>

definition perform_insert ::
  "'a csmat \<Rightarrow> int list \<Rightarrow> 'a list \<Rightarrow> int list \<Rightarrow> int list \<Rightarrow> error option \<times> 'a csmat" where
  "perform_insert m indices_inserts data_inserts rows row_counts =
     (case fancy_add (diff (indptr m)) rows row_counts of
        None \<Rightarrow> (Some IndexError, m)
      | Some indptr_diff \<Rightarrow>
     (let new_indptr = cumsum (0 # indptr_diff) in
      case fancy_set (replicate (length new_indptr - 1) 0) rows row_counts of
        None \<Rightarrow> (Some IndexError, m)
      | Some counts \<Rightarrow>
     (let new_indptr_lookup = cumsum (0 # counts) in
      case insert_many_populate_arrays indices_inserts data_inserts new_indptr_lookup
             (indptr m) (indices m) (data m) (length (indptr m) - 1) of
        (new_indices, new_data) \<Rightarrow>
          (None, m\<lparr>indptr := new_indptr, indices := new_indices, data := new_data\<rparr>))))"

text \<open>
  \<open>_insert_many\<close>. The index type of the arrays is not modelled (the integers are
  unbounded), so the widening by \<open>get_index_dtype\<close> has nothing to do. Only the size of
  \<open>ui_indptr\<close> is used: it is the number of distinct rows. Taking with \<open>order\<close> from a
  shorter \<open>j\<close> or \<open>x\<close> is the library's IndexError.
\<close>

definition insert_many ::
  "'a csmat \<Rightarrow> int list \<Rightarrow> int list \<Rightarrow> 'a list \<Rightarrow> error option \<times> 'a csmat" where
  "insert_many m i0 j0 x0 =
     (if length j0 \<noteq> length i0 \<or> length x0 \<noteq> length i0 then (Some IndexError, m)
      else
        let order = argsort i0;
            i = take_idx i0 order; j = take_idx j0 order; x = take_idx x0 order
        in case select_last_indices i j x of
             (indptr_inserts, indices_inserts, data_inserts) \<Rightarrow>
               let rows = unique indptr_inserts;
                   row_counts = add_at (replicate (length rows) 0)
                                  (map (searchsorted rows) indptr_inserts)
               in perform_insert m indices_inserts data_inserts rows row_counts)"

text \<open>
  The offsets of \<open>_set_many\<close> and \<open>_zero_many\<close>: the lookup in a throwaway matrix whose
  data are the entry numbers in float32, converted to integers.
\<close>

definition entry_offsets :: "'a csmat \<Rightarrow> int list \<Rightarrow> int list \<Rightarrow> nat \<Rightarrow> nat \<Rightarrow> error + int list" where
  "entry_offsets m i j M N =
     (case csr_matrix (arange_float32 (nnz m), indices m, indptr m) (M, N) of
        Inl e \<Rightarrow> Inl e
      | Inr new_sp \<Rightarrow> Inr (get_arrayXarray new_sp i j (- 1)))"

text \<open>
  \<open>_set_many\<close>. Indexing \<open>x\<close> with a mask of another length is the library's IndexError.
  The warning about the change of the sparsity structure has no effect on the object.
\<close>

definition set_many ::
  "'a csmat \<Rightarrow> int list \<Rightarrow> int list \<Rightarrow> 'a list \<Rightarrow> error option \<times> 'a csmat" where
  "set_many m i0 j0 x =
     (case prepare_indices m i0 j0 of
        Inl e \<Rightarrow> (Some e, m)
      | Inr (i, j, M, N) \<Rightarrow>
     (case entry_offsets m i j M N of
        Inl e \<Rightarrow> (Some e, m)
      | Inr offsets \<Rightarrow>
          if length x \<noteq> length offsets then (Some IndexError, m)
          else
            let msk = map (\<lambda>k. k > - 1) offsets;
                m1 = m\<lparr>data := scatter (data m) (compress msk offsets) (compress msk x)\<rparr>
            in if list_all id msk then (None, m1)
               else
                 let nmsk = map Not msk;
                     i' = map (wrap_neg (int M)) (compress nmsk i);
                     j' = map (wrap_neg (int N)) (compress nmsk j)
                 in insert_many m1 i' j' (compress nmsk x)))"

text \<open>\<open>_zero_many\<close>.\<close>

definition zero_many ::
  "('a::zero) csmat \<Rightarrow> int list \<Rightarrow> int list \<Rightarrow> error option \<times> 'a csmat" where
  "zero_many m i0 j0 =
     (case prepare_indices m i0 j0 of
        Inl e \<Rightarrow> (Some e, m)
      | Inr (i, j, M, N) \<Rightarrow>
     (case entry_offsets m i j M N of
        Inl e \<Rightarrow> (Some e, m)
      | Inr offsets \<Rightarrow>
          (None, m\<lparr>data := scatter_fill (data m) (filter (\<lambda>k. k > - 1) offsets) 0\<rparr>)))"

section \<open>The invariants of the representation\<close>

text \<open>
  The invariants of the data model: \<open>indptr\<close> has one entry more than the major axis,
  starts at 0, ends at the number of stored entries and does not decrease; \<open>indices\<close> is
  as long as \<open>data\<close> and holds minor positions.
\<close>

definition well_formed :: "'a csmat \<Rightarrow> bool" where
  "well_formed m =
     (case swap (fmt m) (shape m) of (M, N) \<Rightarrow>
        length (indptr m) = M + 1 \<and> length (indices m) = length (data m) \<and>
        indptr m ! 0 = 0 \<and> last (indptr m) = int (length (data m)) \<and> sorted (indptr m) \<and>
        list_all (\<lambda>c. 0 \<le> c \<and> c < int N) (indices m))"

section \<open>Example inputs\<close>

text \<open>Two contents of the device memory around the arrays.\<close>

definition mem_zero :: "int \<Rightarrow> int" where
  "mem_zero i = 0"

definition mem_one :: "int \<Rightarrow> real fl" where
  "mem_one i = Num 1"

text \<open>A 1 by 5 matrix whose only row stores \<open>-1\<close> and \<open>-3\<close>.\<close>

definition ex_row :: "real fl csmat" where
  "ex_row = \<lparr>fmt = CSR, shape = (1, 5), data = [Num (- 1), Num (- 3)],
     indices = [1, 3], indptr = [0, 2], sorted_attr = None, canonical_attr = None,
     launches = 0\<rparr>"

definition ex_row_vals :: "int \<Rightarrow> real" where
  "ex_row_vals e = (if e = 0 then - 1 else - 3)"

text \<open>A 2 by 4 matrix whose first row stores a NaN between two numbers.\<close>

definition ex_nan :: "real fl csmat" where
  "ex_nan = \<lparr>fmt = CSR, shape = (2, 4), data = [Num 3, NaN, Num 7, Num 1],
     indices = [0, 2, 3, 1], indptr = [0, 3, 4], sorted_attr = None, canonical_attr = None,
     launches = 0\<rparr>"

text \<open>A 1 by 3 matrix with one stored entry, whose two flags have been read.\<close>

definition ex_cached :: "real csmat" where
  "ex_cached = \<lparr>fmt = CSR, shape = (1, 3), data = [5], indices = [1], indptr = [0, 1],
     sorted_attr = Some True, canonical_attr = Some True, launches = 0\<rparr>"

text \<open>A 2 by 2 matrix without stored entries, whose two flags have been set to false.\<close>

definition ex_empty_cached :: "real csmat" where
  "ex_empty_cached = \<lparr>fmt = CSR, shape = (2, 2), data = [], indices = [], indptr = [0, 0, 0],
     sorted_attr = Some False, canonical_attr = Some False, launches = 0\<rparr>"

text \<open>The empty 5 by 5 matrix.\<close>

definition e55 :: "real csmat" where
  "e55 = empty_matrix CSR (5, 5)"

text \<open>The 5 by 5 matrix with the stored entries (1, 2) = 7 and (3, 4) = 9.\<close>

definition ex_after_set :: "real csmat" where
  "ex_after_set = \<lparr>fmt = CSR, shape = (5, 5), data = [7, 9], indices = [2, 4],
     indptr = [0, 0, 1, 1, 2, 2], sorted_attr = None, canonical_attr = None, launches = 0\<rparr>"

text \<open>
  A 1 by 16777218 matrix that stores 1 at every position of its row: it has more than
  \<open>2 ^ 24 + 1\<close> stored entries.
\<close>

definition big_n :: nat where
  "big_n = 16777218"

definition ex_big :: "real csmat" where
  "ex_big = \<lparr>fmt = CSR, shape = (1, big_n), data = replicate big_n 1,
     indices = map int [0..<big_n], indptr = [0, int big_n],
     sorted_attr = None, canonical_attr = None, launches = 0\<rparr>"

section \<open>Properties of the reductions\<close>

subsection \<open>The loops\<close>


lemma reduce_loop_nan:
  "e \<in> set es \<Longrightarrow> d e = NaN \<Longrightarrow> reduce_loop ope d es r = NaN"
  by (induction es arbitrary: r) auto

lemma arg_loop_nan:
  "e \<in> set es \<Longrightarrow> d e = NaN \<Longrightarrow> arg_loop ope d ix es st = (0, NaN)"
  by (induction es arbitrary: st) auto

lemma reduce_loop_gt_bounds:
  "\<forall>e\<in>set es. d e = Num (v e) \<Longrightarrow>
   \<exists>m. reduce_loop OpGt d es (Num r) = Num m \<and> m \<in> insert r (v ` set es) \<and>
       r \<le> m \<and> (\<forall>e\<in>set es. v e \<le> m)"
proof (induction es arbitrary: r)
  case Nil
  then show ?case by simp
next
  case (Cons e es)
  let ?r' = "if v e > r then v e else r"
  from Cons.prems have "\<forall>e\<in>set es. d e = Num (v e)" by simp
  from Cons.IH [OF this, of ?r'] obtain m where
    m: "reduce_loop OpGt d es (Num ?r') = Num m" "m \<in> insert ?r' (v ` set es)"
       "?r' \<le> m" "\<forall>e\<in>set es. v e \<le> m" by blast
  have "reduce_loop OpGt d (e # es) (Num r) = Num m"
    using Cons.prems m(1) by (auto split: if_splits)
  moreover have "m \<in> insert r (v ` set (e # es))" using m(2) by (auto split: if_splits)
  moreover have "r \<le> m" using m(3) by (auto split: if_splits)
  moreover have "\<forall>e'\<in>set (e # es). v e' \<le> m" using m(3,4) by (auto split: if_splits)
  ultimately show ?case by blast
qed

lemma reduce_loop_max:
  assumes "\<forall>e\<in>set es. d e = Num (v e)"
  shows "reduce_loop OpGt d es (Num r) = Num (Max (insert r (v ` set es)))"
proof -
  from reduce_loop_gt_bounds [OF assms, of r] obtain m where
    m: "reduce_loop OpGt d es (Num r) = Num m" "m \<in> insert r (v ` set es)"
       "r \<le> m" "\<forall>e\<in>set es. v e \<le> m" by blast
  have "Max (insert r (v ` set es)) = m"
    by (rule Max_eqI) (use m in auto)
  with m(1) show ?thesis by simp
qed

lemma reduce_loop_lt_bounds:
  "\<forall>e\<in>set es. d e = Num (v e) \<Longrightarrow>
   \<exists>m. reduce_loop OpLt d es (Num r) = Num m \<and> m \<in> insert r (v ` set es) \<and>
       m \<le> r \<and> (\<forall>e\<in>set es. m \<le> v e)"
proof (induction es arbitrary: r)
  case Nil
  then show ?case by simp
next
  case (Cons e es)
  let ?r' = "if v e < r then v e else r"
  from Cons.prems have "\<forall>e\<in>set es. d e = Num (v e)" by simp
  from Cons.IH [OF this, of ?r'] obtain m where
    m: "reduce_loop OpLt d es (Num ?r') = Num m" "m \<in> insert ?r' (v ` set es)"
       "m \<le> ?r'" "\<forall>e\<in>set es. m \<le> v e" by blast
  have "reduce_loop OpLt d (e # es) (Num r) = Num m"
    using Cons.prems m(1) by (auto split: if_splits)
  moreover have "m \<in> insert r (v ` set (e # es))" using m(2) by (auto split: if_splits)
  moreover have "m \<le> r" using m(3) by (auto split: if_splits)
  moreover have "\<forall>e'\<in>set (e # es). m \<le> v e'" using m(3,4) by (auto split: if_splits)
  ultimately show ?case by blast
qed

lemma reduce_loop_min:
  assumes "\<forall>e\<in>set es. d e = Num (v e)"
  shows "reduce_loop OpLt d es (Num r) = Num (Min (insert r (v ` set es)))"
proof -
  from reduce_loop_lt_bounds [OF assms, of r] obtain m where
    m: "reduce_loop OpLt d es (Num r) = Num m" "m \<in> insert r (v ` set es)"
       "m \<le> r" "\<forall>e\<in>set es. m \<le> v e" by blast
  have "Min (insert r (v ` set es)) = m"
    by (rule Min_eqI) (use m in auto)
  with m(1) show ?thesis by simp
qed


lemma first_gap_props:
  "k \<le> len \<Longrightarrow>
   k \<le> first_gap oobi ind xt yt len k \<and> first_gap oobi ind xt yt len k \<le> len \<and>
   (\<forall>j. k \<le> j \<and> j < first_gap oobi ind xt yt len k \<longrightarrow>
        dev_read oobi ind (xt + j) = j \<and> xt + j < yt) \<and>
   (first_gap oobi ind xt yt len k < len \<longrightarrow>
        dev_read oobi ind (xt + first_gap oobi ind xt yt len k) \<noteq> first_gap oobi ind xt yt len k
        \<or> xt + first_gap oobi ind xt yt len k \<ge> yt)"
proof (induction oobi ind xt yt len k rule: first_gap.induct)
  case (1 oobi ind xt yt len k)
  show ?case
  proof (cases "k < len \<and> \<not> (k \<noteq> dev_read oobi ind (xt + k) \<or> xt + k \<ge> yt)")
    case True
    then have eq: "first_gap oobi ind xt yt len k = first_gap oobi ind xt yt len (k + 1)"
      by (subst first_gap.simps) simp
    from True have "k + 1 \<le> len" by simp
    from "1.IH" [OF _ _ this] True
    have ih: "k + 1 \<le> first_gap oobi ind xt yt len (k + 1)"
      "first_gap oobi ind xt yt len (k + 1) \<le> len"
      "\<forall>j. k + 1 \<le> j \<and> j < first_gap oobi ind xt yt len (k + 1) \<longrightarrow>
        dev_read oobi ind (xt + j) = j \<and> xt + j < yt"
      "first_gap oobi ind xt yt len (k + 1) < len \<longrightarrow>
        dev_read oobi ind (xt + first_gap oobi ind xt yt len (k + 1)) \<noteq> first_gap oobi ind xt yt len (k + 1)
        \<or> xt + first_gap oobi ind xt yt len (k + 1) \<ge> yt"
      by auto
    have "\<forall>j. k \<le> j \<and> j < first_gap oobi ind xt yt len (k + 1) \<longrightarrow>
        dev_read oobi ind (xt + j) = j \<and> xt + j < yt"
    proof (intro allI impI)
      fix j assume j: "k \<le> j \<and> j < first_gap oobi ind xt yt len (k + 1)"
      show "dev_read oobi ind (xt + j) = j \<and> xt + j < yt"
      proof (cases "j = k")
        case True
        with \<open>k < len \<and> \<not> (k \<noteq> dev_read oobi ind (xt + k) \<or> xt + k \<ge> yt)\<close> show ?thesis by auto
      next
        case False
        with j have "k + 1 \<le> j" by simp
        with ih(3) j show ?thesis by blast
      qed
    qed
    with ih eq show ?thesis by simp
  next
    case False
    then have eq: "first_gap oobi ind xt yt len k = k"
      by (subst first_gap.simps) auto
    show ?thesis unfolding eq using False "1.prems" by auto
  qed
qed

subsection \<open>One row of the output\<close>


lemma dev_read_in: "0 \<le> i \<Longrightarrow> i < int (length a) \<Longrightarrow> dev_read oob a i = a ! nat i"
  by (simp add: dev_read_def)

lemma dev_read_butlast: "r < length xs - 1 \<Longrightarrow> dev_read oob (butlast xs) (int r) = xs ! r"
  by (auto simp: dev_read_def nth_butlast)

lemma dev_read_tl: "r < length xs - 1 \<Longrightarrow> dev_read oob (tl xs) (int r) = xs ! Suc r"
  by (auto simp: dev_read_def nth_tl)

lemma minor_reduce_row:
  assumes "tuple_get (shape m) (1 - axis) = Some n" "tuple_get (shape m) axis = Some len"
    and "r < n" "length (indptr m) = Suc n"
  shows "\<exists>out. minor_reduce oobi oobd m uf axis nz = Some out \<and> length out = n \<and>
           out ! r = reduce_loop (fst (kerns nz uf)) (dev_read oobd (data m))
                       [indptr m ! r..indptr m ! Suc r - 1]
                       (initial_value (snd (kerns nz uf)) oobd (data m)
                          (indptr m ! r) (indptr m ! Suc r) (int len))"
  using assms
  by (simp add: minor_reduce_def max_min_reduction_def dev_read_butlast dev_read_tl Let_def)

lemma arg_minor_reduce_row:
  assumes "tuple_get (shape m) (1 - axis) = Some n" "tuple_get (shape m) axis = Some len"
    and "r < n" "length (indptr m) = Suc n"
  shows "\<exists>out. arg_minor_reduce oobi oobd m uf axis = Some out \<and> length out = n \<and>
           out ! r = fst (arg_loop (arg_op uf) (dev_read oobd (data m)) (dev_read oobi (indices m))
                       [indptr m ! r..indptr m ! Suc r - 1]
                       (arg_initial oobi oobd (data m) (indices m)
                          (indptr m ! r) (indptr m ! Suc r) (int len)))"
  using assms
  by (simp add: arg_minor_reduce_def arg_reduction_def dev_read_butlast dev_read_tl Let_def)


lemma minor_reduce_row_result:
  assumes "tuple_get (shape m) (1 - axis) = Some n" "tuple_get (shape m) axis = Some len"
    and "r < n" "length (indptr m) = Suc n"
  shows "row_result (minor_reduce oobi oobd m uf axis nz) r =
           Some (reduce_loop (fst (kerns nz uf)) (dev_read oobd (data m))
                       [indptr m ! r..indptr m ! Suc r - 1]
                       (initial_value (snd (kerns nz uf)) oobd (data m)
                          (indptr m ! r) (indptr m ! Suc r) (int len)))"
  using minor_reduce_row [OF assms, of oobi oobd uf nz] assms(3)
  by (auto simp: row_result_def)

lemma arg_minor_reduce_row_result:
  assumes "tuple_get (shape m) (1 - axis) = Some n" "tuple_get (shape m) axis = Some len"
    and "r < n" "length (indptr m) = Suc n"
  shows "row_result (arg_minor_reduce oobi oobd m uf axis) r =
           Some (fst (arg_loop (arg_op uf) (dev_read oobd (data m)) (dev_read oobi (indices m))
                       [indptr m ! r..indptr m ! Suc r - 1]
                       (arg_initial oobi oobd (data m) (indices m)
                          (indptr m ! r) (indptr m ! Suc r) (int len))))"
  using arg_minor_reduce_row [OF assms, of oobi oobd uf] assms(3)
  by (auto simp: row_result_def)

lemma stored_reads:
  assumes "0 \<le> xt" "yt \<le> int (length dat)"
    and "\<forall>e. xt \<le> e \<and> e < yt \<longrightarrow> dat ! nat e = Num (v e)"
  shows "\<forall>e\<in>set [xt..yt - 1]. dev_read oobd dat e = Num (v e)"
  using assms by (auto simp: dev_read_def)

lemma set_upto_less: "{xt..yt - 1} = {xt..<yt::int}"
  by auto


subsection \<open>Initial accumulator of min and max\<close>

text \<open>
  C3. For a row \<open>r\<close> whose stored values are the numbers \<open>v e\<close>:
  in nonzero-only mode a row with at least one stored entry starts its accumulator at the
  first stored value, and the result is the maximum (minimum) of the stored values alone,
  no implicit zero taking part; with nonzero-only disabled a row with fewer stored entries
  than its theoretical length starts at 0, and the result is the maximum (minimum) of 0
  and the stored values; a row with no stored entry yields 0. \<open>_minor_reduce\<close> reduces
  over a non-empty axis (its docstring), that is \<open>len \<noteq> 0\<close>; in nonzero-only mode the
  last statement does not need it.
\<close>

theorem minor_reduce_accumulator:
  fixes v :: "int \<Rightarrow> 'a::{linorder,zero}"
  assumes shp: "tuple_get (shape m) (1 - axis) = Some n" "tuple_get (shape m) axis = Some len"
    and r: "r < n" "length (indptr m) = Suc n"
    and rng: "0 \<le> indptr m ! r" "indptr m ! Suc r \<le> int (length (data m))"
    and vals: "\<forall>e. indptr m ! r \<le> e \<and> e < indptr m ! Suc r \<longrightarrow> data m ! nat e = Num (v e)"
  shows "(indptr m ! r < indptr m ! Suc r \<longrightarrow>
            initial_value BlockNonzero oobd (data m) (indptr m ! r) (indptr m ! Suc r) (int len)
              = data m ! nat (indptr m ! r) \<and>
            row_result (minor_reduce oobi oobd m Amax axis True) r
              = Some (Num (Max (v ` {indptr m ! r..<indptr m ! Suc r}))) \<and>
            row_result (minor_reduce oobi oobd m Amin axis True) r
              = Some (Num (Min (v ` {indptr m ! r..<indptr m ! Suc r})))) \<and>
         (indptr m ! Suc r - indptr m ! r < int len \<longrightarrow>
            initial_value BlockDense oobd (data m) (indptr m ! r) (indptr m ! Suc r) (int len)
              = Num 0 \<and>
            row_result (minor_reduce oobi oobd m Amax axis False) r
              = Some (Num (Max (insert 0 (v ` {indptr m ! r..<indptr m ! Suc r})))) \<and>
            row_result (minor_reduce oobi oobd m Amin axis False) r
              = Some (Num (Min (insert 0 (v ` {indptr m ! r..<indptr m ! Suc r}))))) \<and>
         (indptr m ! Suc r = indptr m ! r \<and> (nz \<or> len \<noteq> 0) \<longrightarrow>
            row_result (minor_reduce oobi oobd m uf axis nz) r = Some (Num 0))"
proof -
  let ?xt = "indptr m ! r" and ?yt = "indptr m ! Suc r"
  note rd = stored_reads [OF rng vals, of oobd]
  have A: "?xt < ?yt \<longrightarrow>
            initial_value BlockNonzero oobd (data m) ?xt ?yt (int len) = data m ! nat ?xt \<and>
            row_result (minor_reduce oobi oobd m Amax axis True) r
              = Some (Num (Max (v ` {?xt..<?yt}))) \<and>
            row_result (minor_reduce oobi oobd m Amin axis True) r
              = Some (Num (Min (v ` {?xt..<?yt})))"
  proof
    assume lt: "?xt < ?yt"
    then have first: "dev_read oobd (data m) ?xt = data m ! nat ?xt" "data m ! nat ?xt = Num (v ?xt)"
      using rng vals by (auto simp: dev_read_def)
    have ini: "initial_value BlockNonzero oobd (data m) ?xt ?yt (int len) = Num (v ?xt)"
      using lt first by (simp add: initial_value_def)
    have ins: "insert (v ?xt) (v ` {?xt..<?yt}) = v ` {?xt..<?yt}"
      using lt by auto
    show "initial_value BlockNonzero oobd (data m) ?xt ?yt (int len) = data m ! nat ?xt \<and>
            row_result (minor_reduce oobi oobd m Amax axis True) r
              = Some (Num (Max (v ` {?xt..<?yt}))) \<and>
            row_result (minor_reduce oobi oobd m Amin axis True) r
              = Some (Num (Min (v ` {?xt..<?yt})))"
      using ini first
      by (simp add: minor_reduce_row_result [OF shp r] reduce_loop_max [OF rd]
            reduce_loop_min [OF rd] set_upto_less ins)
  qed
  have B: "?yt - ?xt < int len \<longrightarrow>
            initial_value BlockDense oobd (data m) ?xt ?yt (int len) = Num 0 \<and>
            row_result (minor_reduce oobi oobd m Amax axis False) r
              = Some (Num (Max (insert 0 (v ` {?xt..<?yt})))) \<and>
            row_result (minor_reduce oobi oobd m Amin axis False) r
              = Some (Num (Min (insert 0 (v ` {?xt..<?yt}))))"
  proof
    assume lt: "?yt - ?xt < int len"
    then have ini: "initial_value BlockDense oobd (data m) ?xt ?yt (int len) = Num 0"
      by (simp add: initial_value_def)
    show "initial_value BlockDense oobd (data m) ?xt ?yt (int len) = Num 0 \<and>
            row_result (minor_reduce oobi oobd m Amax axis False) r
              = Some (Num (Max (insert 0 (v ` {?xt..<?yt})))) \<and>
            row_result (minor_reduce oobi oobd m Amin axis False) r
              = Some (Num (Min (insert 0 (v ` {?xt..<?yt}))))"
      using ini
      by (simp add: minor_reduce_row_result [OF shp r] reduce_loop_max [OF rd]
            reduce_loop_min [OF rd] set_upto_less)
  qed
  have C: "?yt = ?xt \<and> (nz \<or> len \<noteq> 0) \<longrightarrow>
            row_result (minor_reduce oobi oobd m uf axis nz) r = Some (Num 0)"
  proof
    assume e: "?yt = ?xt \<and> (nz \<or> len \<noteq> 0)"
    then have "initial_value (snd (kerns nz uf)) oobd (data m) ?xt ?yt (int len) = Num 0"
      by (cases nz; cases uf) (auto simp: initial_value_def)
    then show "row_result (minor_reduce oobi oobd m uf axis nz) r = Some (Num 0)"
      using e by (simp add: minor_reduce_row_result [OF shp r])
  qed
  from A B C show ?thesis by blast
qed


text \<open>
  The row storing \<open>-1\<close> and \<open>-3\<close> in a width of 5: the maximum is \<open>-1\<close> in nonzero-only
  mode and 0 otherwise.
\<close>

theorem minor_reduce_accumulator_witness:
  "row_result (minor_reduce mem_zero mem_one ex_row Amax 1 True) 0 = Some (Num (- 1)) \<and>
   row_result (minor_reduce mem_zero mem_one ex_row Amax 1 False) 0 = Some (Num 0) \<and>
   row_result (minor_reduce mem_zero mem_one ex_row Amin 1 True) 0 = Some (Num (- 3))"
proof -
  have h1: "tuple_get (shape ex_row) (1 - 1) = Some 1" "tuple_get (shape ex_row) 1 = Some 5"
    by (simp_all add: ex_row_def tuple_get_def)
  have h2: "(0::nat) < 1" "length (indptr ex_row) = Suc 1"
    by (simp_all add: ex_row_def)
  have h3: "0 \<le> indptr ex_row ! 0" "indptr ex_row ! Suc 0 \<le> int (length (data ex_row))"
    by (simp_all add: ex_row_def)
  have h4: "\<forall>e. indptr ex_row ! 0 \<le> e \<and> e < indptr ex_row ! Suc 0 \<longrightarrow>
              data ex_row ! nat e = Num (ex_row_vals e)"
  proof (intro allI impI)
    fix e :: int assume "indptr ex_row ! 0 \<le> e \<and> e < indptr ex_row ! Suc 0"
    then have "e = 0 \<or> e = 1" by (auto simp: ex_row_def)
    then show "data ex_row ! nat e = Num (ex_row_vals e)"
      by (auto simp: ex_row_def ex_row_vals_def)
  qed
  have img: "ex_row_vals ` {0..<2} = {- 1, - 3}"
  proof -
    have "{0..<2::int} = {0, 1}" by auto
    then show ?thesis by (auto simp: ex_row_vals_def)
  qed
  from minor_reduce_accumulator [OF h1 h2 h3 h4, of mem_one mem_zero True Amax]
  show ?thesis by (simp add: ex_row_def img)
qed


subsection \<open>NaN\<close>

text \<open>
  C4. A row with a stored NaN: the min/max reduction returns NaN for that row, whatever
  the other values, the mode and the operator, and the argmin/argmax reduction reports
  the index 0.
\<close>

theorem nan_propagation:
  assumes "tuple_get (shape m) (1 - axis) = Some n" "tuple_get (shape m) axis = Some len"
    and "r < n" "length (indptr m) = Suc n"
    and "indptr m ! r \<le> e" "e < indptr m ! Suc r" "0 \<le> e" "e < int (length (data m))"
    and "data m ! nat e = NaN"
  shows "(\<exists>out. minor_reduce oobi oobd m uf axis nz = Some out \<and> out ! r = NaN) \<and>
         (\<exists>out. arg_minor_reduce oobi oobd m auf axis = Some out \<and> out ! r = 0)"
proof -
  have mem: "e \<in> set [indptr m ! r..indptr m ! Suc r - 1]" using assms(5,6) by simp
  have nan: "dev_read oobd (data m) e = NaN" using assms(7,8,9) by (simp add: dev_read_in)
  from minor_reduce_row [OF assms(1-4), of oobi oobd uf nz]
  have "\<exists>out. minor_reduce oobi oobd m uf axis nz = Some out \<and> out ! r = NaN"
    by (auto simp: reduce_loop_nan [of e _ "dev_read oobd (data m)", OF mem nan])
  moreover from arg_minor_reduce_row [OF assms(1-4), of oobi oobd auf]
  have "\<exists>out. arg_minor_reduce oobi oobd m auf axis = Some out \<and> out ! r = 0"
    by (auto simp: arg_loop_nan [of e _ "dev_read oobd (data m)", OF mem nan])
  ultimately show ?thesis by blast
qed

theorem nan_propagation_witness:
  "(\<exists>out. minor_reduce (\<lambda>_. 0) (\<lambda>_. Num 0) ex_nan Amax 1 False = Some out \<and> out ! 0 = NaN) \<and>
   (\<exists>out. arg_minor_reduce (\<lambda>_. 0) (\<lambda>_. Num 0) ex_nan Argmax 1 = Some out \<and> out ! 0 = 0)"
  using nan_propagation [of ex_nan 1 2 4 0 1 "\<lambda>_. 0" "\<lambda>_. Num 0" Amax False Argmax]
  by (simp add: ex_nan_def tuple_get_def)


subsection \<open>Initial index of argmin and argmax\<close>

text \<open>
  C9. For a block with at least one stored entry and fewer than its theoretical length,
  the initial value is 0 and the initial index \<open>g\<close> is the first position of the block
  whose stored minor index differs from the position (or the number of stored entries,
  when none differs); for a block with strictly increasing, nonnegative indices that is
  the first minor position without a stored entry.
\<close>

theorem arg_initial_first_gap:
  assumes rng: "0 \<le> xt" "yt \<le> int (length ind)"
    and bl: "0 < yt - xt" "yt - xt < len"
  shows "\<exists>g. arg_initial oobi oobd dat ind xt yt len = (g, Num 0) \<and>
           0 \<le> g \<and> g \<le> yt - xt \<and>
           (\<forall>j. 0 \<le> j \<and> j < g \<longrightarrow> ind ! nat (xt + j) = j) \<and>
           (g < yt - xt \<longrightarrow> ind ! nat (xt + g) \<noteq> g) \<and>
           ((\<forall>e. xt \<le> e \<and> e < yt \<longrightarrow> 0 \<le> ind ! nat e) \<and>
            (\<forall>e e'. xt \<le> e \<and> e < e' \<and> e' < yt \<longrightarrow> ind ! nat e < ind ! nat e') \<longrightarrow>
              (\<forall>e. xt \<le> e \<and> e < yt \<longrightarrow> ind ! nat e \<noteq> g) \<and>
              (\<forall>j. 0 \<le> j \<and> j < g \<longrightarrow> (\<exists>e. xt \<le> e \<and> e < yt \<and> ind ! nat e = j)))"
proof -
  define g where "g = first_gap oobi ind xt yt len 0"
  have len0: "(0::int) \<le> len" using bl by simp
  note p = first_gap_props [OF len0, of oobi ind xt yt, folded g_def]
  have g0: "0 \<le> g" using p by simp
  have in_row: "\<And>j. 0 \<le> j \<Longrightarrow> j < g \<Longrightarrow> dev_read oobi ind (xt + j) = j \<and> xt + j < yt"
    using p by blast
  have gle: "g \<le> yt - xt"
  proof (rule ccontr)
    assume "\<not> g \<le> yt - xt"
    then have "yt - xt < g" by simp
    with in_row [of "yt - xt"] bl show False by simp
  qed
  have rd: "\<And>j. 0 \<le> j \<Longrightarrow> j < yt - xt \<Longrightarrow> dev_read oobi ind (xt + j) = ind ! nat (xt + j)"
    using rng by (simp add: dev_read_def)
  have pre: "\<forall>j. 0 \<le> j \<and> j < g \<longrightarrow> ind ! nat (xt + j) = j"
    using in_row rd gle by (metis diff_add_cancel add.commute less_diff_eq)
  have stop: "g < yt - xt \<longrightarrow> ind ! nat (xt + g) \<noteq> g"
  proof
    assume lt: "g < yt - xt"
    then have "g < len" using bl by simp
    with p have "dev_read oobi ind (xt + g) \<noteq> g \<or> xt + g \<ge> yt" by blast
    with lt rd [OF g0 lt] show "ind ! nat (xt + g) \<noteq> g" by auto
  qed
  have ini: "arg_initial oobi oobd dat ind xt yt len = (g, Num 0)"
    using bl by (simp add: arg_initial_def g_def)
  have gap: "(\<forall>e. xt \<le> e \<and> e < yt \<longrightarrow> 0 \<le> ind ! nat e) \<and>
            (\<forall>e e'. xt \<le> e \<and> e < e' \<and> e' < yt \<longrightarrow> ind ! nat e < ind ! nat e') \<longrightarrow>
              (\<forall>e. xt \<le> e \<and> e < yt \<longrightarrow> ind ! nat e \<noteq> g) \<and>
              (\<forall>j. 0 \<le> j \<and> j < g \<longrightarrow> (\<exists>e. xt \<le> e \<and> e < yt \<and> ind ! nat e = j))"
  proof (intro impI conjI allI)
    fix j assume "0 \<le> j \<and> j < g"
    then have "xt \<le> xt + j \<and> xt + j < yt \<and> ind ! nat (xt + j) = j"
      using pre gle by auto
    then show "\<exists>e. xt \<le> e \<and> e < yt \<and> ind ! nat e = j" by blast
  next
    fix e
    assume srt: "(\<forall>e. xt \<le> e \<and> e < yt \<longrightarrow> 0 \<le> ind ! nat e) \<and>
            (\<forall>e e'. xt \<le> e \<and> e < e' \<and> e' < yt \<longrightarrow> ind ! nat e < ind ! nat e')"
      and e: "xt \<le> e \<and> e < yt"
    show "ind ! nat e \<noteq> g"
    proof (cases "e - xt < g")
      case True
      from e True have "0 \<le> e - xt \<and> e - xt < g" by simp
      with pre have "ind ! nat (xt + (e - xt)) = e - xt" by blast
      with True show ?thesis by simp
    next
      case False
      then have glt: "g < yt - xt" using e by simp
      have big: "g < ind ! nat (xt + g)"
      proof (cases "g = 0")
        case True
        with stop glt srt g0 have "ind ! nat (xt + g) \<noteq> 0" "0 \<le> ind ! nat (xt + g)"
          by auto
        with True show ?thesis by simp
      next
        case False
        with g0 have "0 \<le> g - 1" "g - 1 < g" by simp_all
        with pre have "ind ! nat (xt + (g - 1)) = g - 1" by blast
        moreover have "ind ! nat (xt + (g - 1)) < ind ! nat (xt + g)"
          using srt glt g0 False by simp
        ultimately show ?thesis using stop glt by simp
      qed
      show ?thesis
      proof (cases "e = xt + g")
        case True
        with big show ?thesis by simp
      next
        case False
        with \<open>\<not> e - xt < g\<close> have "xt + g < e" by simp
        with srt e g0 have "ind ! nat (xt + g) < ind ! nat e" by simp
        with big show ?thesis by simp
      qed
    qed
  qed
  from ini g0 gle pre stop gap show ?thesis by blast
qed


text \<open>
  A block storing the minor positions 0, 1 and 3 of a row of length 5: the initial index
  is 2.
\<close>

theorem arg_initial_first_gap_witness:
  "(0::int) \<le> 0 \<and> (3::int) \<le> int (length [0, 1, 3 :: int]) \<and> (0::int) < 3 - 0 \<and> (3::int) - 0 < 5 \<and>
   arg_initial mem_zero mem_one [] [0, 1, 3] 0 3 5 = (2, Num 0)"
proof -
  have h: "(0::int) \<le> 0" "(3::int) \<le> int (length [0, 1, 3 :: int])" "(0::int) < 3 - 0"
    "(3::int) - 0 < 5"
    by simp_all
  from arg_initial_first_gap [OF h, of mem_zero mem_one "[]"] obtain g where
    g: "arg_initial mem_zero mem_one [] [0, 1, 3] 0 3 5 = (g, Num 0)" "0 \<le> g" "g \<le> 3"
       "\<forall>j. 0 \<le> j \<and> j < g \<longrightarrow> [0, 1, 3 :: int] ! nat (0 + j) = j"
       "g < 3 \<longrightarrow> [0, 1, 3 :: int] ! nat (0 + g) \<noteq> g"
    by auto
  from g(2,3) have "g = 0 \<or> g = 1 \<or> g = 2 \<or> g = 3" by arith
  moreover have "g \<noteq> 0" "g \<noteq> 1" using g(5) by auto
  moreover have "g \<noteq> 3"
  proof
    assume "g = 3"
    then have "(0::int) \<le> 2 \<and> 2 < g" by simp
    with g(4) have "[0, 1, 3 :: int] ! nat (0 + 2) = 2" by blast
    then show False by simp
  qed
  ultimately have "g = 2" by blast
  with g(1) h show ?thesis by simp
qed

section \<open>Properties of the cached flags\<close>

lemma perform_insert_flags:
  "perform_insert m ii di rows rc = (e, m') \<Longrightarrow>
   sorted_attr m' = sorted_attr m \<and> canonical_attr m' = canonical_attr m \<and> launches m' = launches m
   \<and> fmt m' = fmt m \<and> shape m' = shape m"
  by (auto simp: perform_insert_def Let_def split: option.splits prod.splits)

lemma insert_many_flags:
  "insert_many m i j x = (e, m') \<Longrightarrow>
   sorted_attr m' = sorted_attr m \<and> canonical_attr m' = canonical_attr m \<and> launches m' = launches m
   \<and> fmt m' = fmt m \<and> shape m' = shape m"
  by (auto simp: insert_many_def Let_def split: if_splits prod.splits dest!: perform_insert_flags)

lemma set_many_flags:
  "set_many m i j x = (e, m') \<Longrightarrow>
   sorted_attr m' = sorted_attr m \<and> canonical_attr m' = canonical_attr m \<and> launches m' = launches m"
  by (auto simp: set_many_def Let_def split: if_splits prod.splits sum.splits dest!: insert_many_flags)

lemma zero_many_flags:
  "zero_many m i j = (e, m') \<Longrightarrow>
   sorted_attr m' = sorted_attr m \<and> canonical_attr m' = canonical_attr m \<and> launches m' = launches m"
  by (auto simp: zero_many_def Let_def split: if_splits prod.splits sum.splits)

text \<open>
  C10. A matrix without stored entries: reading \<open>has_sorted_indices\<close> and reading
  \<open>has_canonical_format\<close> both return true and store true in the cache, whatever was
  cached before, and neither runs a check kernel.
\<close>

theorem empty_matrix_flags:
  "data m = [] \<Longrightarrow>
   get_sorted oobi m = (True, m\<lparr>sorted_attr := Some True\<rparr>) \<and>
   get_has_canonical_format oobi m = (True, m\<lparr>canonical_attr := Some True\<rparr>) \<and>
   launches (snd (get_sorted oobi m)) = launches m \<and>
   launches (snd (get_has_canonical_format oobi m)) = launches m"
  by (simp add: get_sorted_def get_has_canonical_format_def)

theorem empty_matrix_flags_witness:
  "data ex_empty_cached = [] \<and>
   get_sorted mem_zero ex_empty_cached = (True, ex_empty_cached\<lparr>sorted_attr := Some True\<rparr>) \<and>
   get_has_canonical_format mem_zero ex_empty_cached
     = (True, ex_empty_cached\<lparr>canonical_attr := Some True\<rparr>) \<and>
   sorted_attr ex_empty_cached = Some False \<and> canonical_attr ex_empty_cached = Some False"
proof -
  have h: "data ex_empty_cached = []" by (simp add: ex_empty_cached_def)
  from empty_matrix_flags [OF h, of mem_zero] h show ?thesis
    by (simp add: ex_empty_cached_def)
qed

text \<open>
  C8 (as amended). Batch insertion does not reset the cached flags: \<open>_insert_many\<close>,
  \<open>_set_many\<close> and \<open>_zero_many\<close> leave both attributes as they were, whatever their
  arguments and outcome. On a matrix with stored entries, a read of \<open>has_sorted_indices\<close>
  returns the cached value when there is one; a read of \<open>has_canonical_format\<close> returns
  false (and caches it) when \<open>has_sorted_indices\<close> is cached as false, and otherwise
  returns the cached value when there is one. None of these reads runs a check kernel.
\<close>

theorem flags_kept_by_mutation:
  "sorted_attr (snd (insert_many m i j x)) = sorted_attr m \<and>
   canonical_attr (snd (insert_many m i j x)) = canonical_attr m \<and>
   sorted_attr (snd (set_many m i j x)) = sorted_attr m \<and>
   canonical_attr (snd (set_many m i j x)) = canonical_attr m \<and>
   sorted_attr (snd (zero_many m i j)) = sorted_attr m \<and>
   canonical_attr (snd (zero_many m i j)) = canonical_attr m \<and>
   (data m \<noteq> [] \<and> sorted_attr m = Some b \<longrightarrow> get_sorted oobi m = (b, m)) \<and>
   (data m \<noteq> [] \<and> sorted_attr m = Some False \<longrightarrow>
      get_has_canonical_format oobi m = (False, m\<lparr>canonical_attr := Some False\<rparr>)) \<and>
   (data m \<noteq> [] \<and> sorted_attr m \<noteq> Some False \<and> canonical_attr m = Some c \<longrightarrow>
      get_has_canonical_format oobi m = (c, m))"
proof -
  have "sorted_attr (snd (insert_many m i j x)) = sorted_attr m \<and>
        canonical_attr (snd (insert_many m i j x)) = canonical_attr m"
    using insert_many_flags [of m i j x] by (cases "insert_many m i j x") simp
  moreover have "sorted_attr (snd (set_many m i j x)) = sorted_attr m \<and>
        canonical_attr (snd (set_many m i j x)) = canonical_attr m"
    using set_many_flags [of m i j x] by (cases "set_many m i j x") simp
  moreover have "sorted_attr (snd (zero_many m i j)) = sorted_attr m \<and>
        canonical_attr (snd (zero_many m i j)) = canonical_attr m"
    using zero_many_flags [of m i j] by (cases "zero_many m i j") simp
  moreover have "data m \<noteq> [] \<and> sorted_attr m = Some b \<longrightarrow> get_sorted oobi m = (b, m)"
    by (simp add: get_sorted_def)
  moreover have "data m \<noteq> [] \<and> sorted_attr m = Some False \<longrightarrow>
      get_has_canonical_format oobi m = (False, m\<lparr>canonical_attr := Some False\<rparr>)"
    by (simp add: get_has_canonical_format_def)
  moreover have "data m \<noteq> [] \<and> sorted_attr m \<noteq> Some False \<and> canonical_attr m = Some c \<longrightarrow>
      get_has_canonical_format oobi m = (c, m)"
    by (auto simp: get_has_canonical_format_def split: option.splits)
  ultimately show ?thesis by blast
qed

text \<open>
  On \<open>ex_cached\<close>, whose flags are cached as true, and on the same matrix after
  \<open>has_sorted_indices\<close> has been set to false.
\<close>

theorem flags_kept_by_mutation_witness:
  "data ex_cached \<noteq> [] \<and> sorted_attr ex_cached = Some True \<and>
   canonical_attr ex_cached = Some True \<and>
   sorted_attr (snd (set_many ex_cached [0] [2] [6])) = Some True \<and>
   canonical_attr (snd (insert_many ex_cached [0] [2] [6])) = Some True \<and>
   get_sorted mem_zero ex_cached = (True, ex_cached) \<and>
   get_has_canonical_format mem_zero ex_cached = (True, ex_cached) \<and>
   data (set_sorted ex_cached False) \<noteq> [] \<and>
   sorted_attr (set_sorted ex_cached False) = Some False \<and>
   canonical_attr (set_sorted ex_cached False) = Some True \<and>
   get_has_canonical_format mem_zero (set_sorted ex_cached False)
     = (False, set_sorted ex_cached False\<lparr>canonical_attr := Some False\<rparr>)"
proof -
  have h: "data ex_cached \<noteq> []" "sorted_attr ex_cached = Some True"
    "canonical_attr ex_cached = Some True" "sorted_attr ex_cached \<noteq> Some False"
    by (simp_all add: ex_cached_def)
  have h': "data (set_sorted ex_cached False) \<noteq> []"
    "sorted_attr (set_sorted ex_cached False) = Some False"
    "canonical_attr (set_sorted ex_cached False) = Some True"
    by (simp_all add: ex_cached_def set_sorted_def)
  from flags_kept_by_mutation [of ex_cached "[0]" "[2]" "[6]" True mem_zero True] h
  have 1: "sorted_attr (snd (set_many ex_cached [0] [2] [6])) = Some True \<and>
   canonical_attr (snd (insert_many ex_cached [0] [2] [6])) = Some True \<and>
   get_sorted mem_zero ex_cached = (True, ex_cached) \<and>
   get_has_canonical_format mem_zero ex_cached = (True, ex_cached)"
    by simp
  from flags_kept_by_mutation [of "set_sorted ex_cached False" "[0]" "[2]" "[6]" False mem_zero True] h'
  have 2: "get_has_canonical_format mem_zero (set_sorted ex_cached False)
     = (False, set_sorted ex_cached False\<lparr>canonical_attr := Some False\<rparr>)"
    by simp
  from h h' 1 2 show ?thesis by simp
qed

text \<open>
  C8 as stated fails: setting the absent coordinate (0, 2) of \<open>ex_cached\<close> replaces its
  three arrays, the two cached flags are still set afterwards, and the next read of
  \<open>has_canonical_format\<close> returns the cached value without running the kernel.
\<close>

lemma ex_cached_set:
  "set_many ex_cached [0] [2] [6] =
     (None, ex_cached\<lparr>indptr := [0, 2], indices := [1, 2], data := [5, 6]\<rparr>)"
  by (simp add: ex_cached_def set_many_def prepare_indices_def to_index_def check_bounds_def
      entry_offsets_def csr_matrix_def nnz_def arange_float32_def float32_of_nat_def
      get_arrayXarray_def csr_sample_values_def find_entry_def row_positions_def wrap_neg_def
      compress_def scatter_def insert_many_def argsort_def take_idx_def select_last_indices_def
      unique_def searchsorted_def add_at_def perform_insert_def diff_def fancy_add_def
      fancy_set_def py_index_def cumsum_def insert_many_populate_arrays_def populated_row_def
      slice_def Let_def)

theorem flags_not_reset_counterexample:
  "data (snd (set_many ex_cached [0] [2] [6])) = [5, 6] \<and>
   indices (snd (set_many ex_cached [0] [2] [6])) = [1, 2] \<and>
   indptr (snd (set_many ex_cached [0] [2] [6])) = [0, 2] \<and>
   sorted_attr (snd (set_many ex_cached [0] [2] [6])) = Some True \<and>
   canonical_attr (snd (set_many ex_cached [0] [2] [6])) = Some True \<and>
   launches (snd (get_has_canonical_format mem_zero (snd (set_many ex_cached [0] [2] [6])))) = 0"
  by (simp add: ex_cached_set get_has_canonical_format_def) (simp add: ex_cached_def)

section \<open>Properties of the bounds check\<close>








section \<open>Properties of the scalar lookup\<close>

lemma slice_nth_map:
  assumes "0 \<le> lo" "lo \<le> hi" "hi \<le> int (length xs)"
  shows "slice xs lo hi = map (\<lambda>p. xs ! p) [nat lo..<nat hi]"
proof (rule nth_equalityI)
  show "length (slice xs lo hi) = length (map (\<lambda>p. xs ! p) [nat lo..<nat hi])"
    using assms by (simp add: slice_def)
next
  fix k assume "k < length (slice xs lo hi)"
  then have k: "k < nat hi - nat lo" using assms by (simp add: slice_def)
  then show "slice xs lo hi ! k = map (\<lambda>p. xs ! p) [nat lo..<nat hi] ! k"
    using assms by (simp add: slice_def)
qed

lemma zip_slices:
  assumes "0 \<le> lo" "lo \<le> hi" "hi \<le> int (length xs)" "length ys = length xs"
  shows "zip (slice xs lo hi) (slice ys lo hi) = map (\<lambda>p. (xs ! p, ys ! p)) [nat lo..<nat hi]"
  using assms by (simp add: slice_nth_map zip_map_map)  (simp add: zip_same_conv_map)

lemma find_map_eq: "find P (map f xs) = map_option f (find (\<lambda>x. P (f x)) xs)"
  by (induction xs) auto

lemma well_formed_row:
  assumes wf: "well_formed m" and r: "r < fst (swap (fmt m) (shape m))"
  shows "0 \<le> indptr m ! r" "indptr m ! r \<le> indptr m ! Suc r"
    "indptr m ! Suc r \<le> int (length (data m))" "length (indices m) = length (data m)"
    "length (indptr m) = Suc (fst (swap (fmt m) (shape m)))"
proof -
  obtain M N where sw: "swap (fmt m) (shape m) = (M, N)" by (cases "swap (fmt m) (shape m)")
  from wf sw have f: "length (indptr m) = M + 1" "length (indices m) = length (data m)"
    "indptr m ! 0 = 0" "last (indptr m) = int (length (data m))" "sorted (indptr m)"
    by (simp_all add: well_formed_def)
  from r sw have rM: "r < M" by simp
  show "length (indices m) = length (data m)" by fact
  show "length (indptr m) = Suc (fst (swap (fmt m) (shape m)))" using f(1) sw by simp
  have "indptr m ! 0 \<le> indptr m ! r" using f(5) f(1) rM by (simp add: sorted_iff_nth_mono)
  then show "0 \<le> indptr m ! r" using f(3) by simp
  show "indptr m ! r \<le> indptr m ! Suc r" using f(5) f(1) rM by (simp add: sorted_iff_nth_mono)
  have "indptr m \<noteq> []" using f(1) by auto
  then have "last (indptr m) = indptr m ! M" using f(1) by (simp add: last_conv_nth)
  moreover have "indptr m ! Suc r \<le> indptr m ! M" using f(5) f(1) rM by (simp add: sorted_iff_nth_mono)
  ultimately show "indptr m ! Suc r \<le> int (length (data m))" using f(4) by simp
qed

lemma get_intXint_sum:
  assumes wf: "well_formed m" and sw: "swap (fmt m) (row, col) = (major, minor)"
    and r: "major < fst (swap (fmt m) (shape m))"
  shows "get_intXint m row col =
    (sum_list (map (\<lambda>p. data m ! p)
       (filter (\<lambda>p. indices m ! p = int minor)
          [nat (indptr m ! major)..<nat (indptr m ! Suc major)])), m)"
proof -
  note w = well_formed_row [OF wf r]
  have z: "zip (slice (data m) (indptr m ! major) (indptr m ! Suc major))
               (slice (indices m) (indptr m ! major) (indptr m ! Suc major))
           = map (\<lambda>p. (data m ! p, indices m ! p)) [nat (indptr m ! major)..<nat (indptr m ! Suc major)]"
    using w by (intro zip_slices) simp_all
  show ?thesis
    by (simp add: get_intXint_def sw get_csr_submatrix_major_axis_def compress_getitem_def z
        filter_map comp_def)
qed

lemma filter_upt_unique:
  assumes "a \<le> p" "p < b" "P p" "\<forall>q. a \<le> q \<and> q < b \<and> P q \<longrightarrow> q = p"
  shows "filter P [a..<b] = [p]"
proof -
  have split: "[a..<b] = [a..<p] @ p # [Suc p..<b]"
    using assms(1,2) by (metis le_add_diff_inverse less_imp_le_nat upt_add_eq_append upt_conv_Cons)
  have "\<not> P q" if "q \<in> set [a..<p]" for q
  proof
    assume "P q"
    with that assms(2,4) have "q = p" by auto
    with that show False by simp
  qed
  then have 1: "filter P [a..<p] = []" unfolding filter_empty_conv by blast
  have "\<not> P q" if "q \<in> set [Suc p..<b]" for q
  proof
    assume "P q"
    with that assms(1,4) have "q = p" by auto
    with that show False by simp
  qed
  then have 2: "filter P [Suc p..<b] = []" unfolding filter_empty_conv by blast
  show ?thesis using assms(3) 1 2 by (simp add: split)
qed

lemma find_upt_first:
  assumes "a \<le> p" "p < b" "P p" "\<forall>q. a \<le> q \<and> q < p \<longrightarrow> \<not> P q"
  shows "find P [a..<b] = Some p"
proof -
  have "\<exists>i<length [a..<b]. P ([a..<b] ! i) \<and> p = [a..<b] ! i \<and> (\<forall>j<i. \<not> P ([a..<b] ! j))"
    using assms by (intro exI [of _ "p - a"]) auto
  then show ?thesis by (simp only: find_Some_iff)
qed

subsection \<open>Setting two entries of the empty 5 by 5 matrix\<close>

lemma e55_eq:
  "e55 = \<lparr>fmt = CSR, shape = (5, 5), data = [], indices = [], indptr = [0, 0, 0, 0, 0, 0],
     sorted_attr = None, canonical_attr = None, launches = 0\<rparr>"
  by (simp add: e55_def empty_matrix_def eval_nat_numeral)

lemma e55_prepare: "prepare_indices e55 [1, 3] [2, 4] = Inr ([1, 3], [2, 4], 5, 5)"
  by (simp add: e55_eq prepare_indices_def to_index_def check_bounds_def)

lemma e55_offsets: "entry_offsets e55 [1, 3] [2, 4] 5 5 = Inr [- 1, - 1]"
  by (simp add: e55_eq entry_offsets_def csr_matrix_def nnz_def arange_float32_def
      get_arrayXarray_def csr_sample_values_def find_entry_def row_positions_def wrap_neg_def)

lemma e55_insert:
  "insert_many \<lparr>fmt = CSR, shape = (5, 5), data = [], indices = [], indptr = [0, 0, 0, 0, 0, 0],
     sorted_attr = None, canonical_attr = None, launches = 0\<rparr> [1, 3] [2, 4] [7, 9 :: real]
   = (None, ex_after_set)"
  by code_simp

lemma e55_set:
  "set_many e55 [1, 3] [2, 4] [7, 9] = (None, ex_after_set)"
  by (simp add: set_many_def e55_prepare e55_offsets compress_def scatter_def wrap_neg_def)
     (simp add: e55_eq e55_insert)

lemma ex_after_set_get:
  "fst (get_intXint ex_after_set 1 2) = 7" "fst (get_intXint ex_after_set 3 4) = 9"
  "fst (get_intXint ex_after_set 0 0) = 0"
  by code_simp+

text \<open>
  C5. For a matrix satisfying the invariants and a major index in range, the scalar get
  leaves the matrix as it is and returns the sum of the values stored at the coordinate:
  0 when the row stores no entry at the minor index, the stored value when it stores one
  (and the sum of the duplicates of a matrix that is not canonical). After
  \<open>set(i=[1,3], j=[2,4], x=[7,9])\<close> on the empty 5 by 5 matrix,
  \<open>get(1,2) = 7\<close>, \<open>get(3,4) = 9\<close> and \<open>get(0,0) = 0\<close>.
\<close>

theorem scalar_get:
  assumes wf: "well_formed m" and sw: "swap (fmt m) (row, col) = (major, minor)"
    and r: "major < fst (swap (fmt m) (shape m))"
  shows "snd (get_intXint m row col) = m \<and>
         fst (get_intXint m row col) =
           sum_list (map (\<lambda>p. data m ! p)
             (filter (\<lambda>p. indices m ! p = int minor)
                [nat (indptr m ! major)..<nat (indptr m ! Suc major)])) \<and>
         ((\<forall>p. indptr m ! major \<le> int p \<and> int p < indptr m ! Suc major \<longrightarrow>
                indices m ! p \<noteq> int minor) \<longrightarrow>
            fst (get_intXint m row col) = 0) \<and>
         (\<forall>p. indptr m ! major \<le> int p \<and> int p < indptr m ! Suc major \<and>
               indices m ! p = int minor \<and>
               (\<forall>q. indptr m ! major \<le> int q \<and> int q < indptr m ! Suc major \<and>
                    indices m ! q = int minor \<longrightarrow> q = p) \<longrightarrow>
            fst (get_intXint m row col) = data m ! p) \<and>
         fst (get_intXint (snd (set_many e55 [1, 3] [2, 4] [7, 9])) 1 2) = 7 \<and>
         fst (get_intXint (snd (set_many e55 [1, 3] [2, 4] [7, 9])) 3 4) = 9 \<and>
         fst (get_intXint (snd (set_many e55 [1, 3] [2, 4] [7, 9])) 0 0) = 0"
proof -
  note g = get_intXint_sum [OF wf sw r]
  note w = well_formed_row [OF wf r]
  let ?a = "nat (indptr m ! major)" and ?b = "nat (indptr m ! Suc major)"
  let ?P = "\<lambda>p. indices m ! p = int minor"
  have 1: "snd (get_intXint m row col) = m" by (simp add: g)
  have 0: "fst (get_intXint m row col) =
           sum_list (map (\<lambda>p. data m ! p) (filter ?P [?a..<?b]))"
    by (simp add: g)
  have 2: "(\<forall>p. indptr m ! major \<le> int p \<and> int p < indptr m ! Suc major \<longrightarrow>
                indices m ! p \<noteq> int minor) \<longrightarrow> fst (get_intXint m row col) = 0"
  proof
    assume a: "\<forall>p. indptr m ! major \<le> int p \<and> int p < indptr m ! Suc major \<longrightarrow>
                indices m ! p \<noteq> int minor"
    have "filter ?P [?a..<?b] = []"
    proof -
      have "\<not> ?P p" if "p \<in> set [?a..<?b]" for p
      proof -
        from that w have "indptr m ! major \<le> int p \<and> int p < indptr m ! Suc major" by auto
        with a show ?thesis by blast
      qed
      then show ?thesis unfolding filter_empty_conv by blast
    qed
    then show "fst (get_intXint m row col) = 0" by (simp add: g)
  qed
  have 3: "\<forall>p. indptr m ! major \<le> int p \<and> int p < indptr m ! Suc major \<and>
               indices m ! p = int minor \<and>
               (\<forall>q. indptr m ! major \<le> int q \<and> int q < indptr m ! Suc major \<and>
                    indices m ! q = int minor \<longrightarrow> q = p) \<longrightarrow>
            fst (get_intXint m row col) = data m ! p"
  proof (intro allI impI)
    fix p
    assume a: "indptr m ! major \<le> int p \<and> int p < indptr m ! Suc major \<and>
               indices m ! p = int minor \<and>
               (\<forall>q. indptr m ! major \<le> int q \<and> int q < indptr m ! Suc major \<and>
                    indices m ! q = int minor \<longrightarrow> q = p)"
    have "filter ?P [?a..<?b] = [p]"
    proof (rule filter_upt_unique)
      show "?a \<le> p" using a by linarith
      show "p < ?b" using a by linarith
      show "?P p" using a by simp
      show "\<forall>q. ?a \<le> q \<and> q < ?b \<and> ?P q \<longrightarrow> q = p"
      proof (intro allI impI)
        fix q assume q: "?a \<le> q \<and> q < ?b \<and> ?P q"
        then have "indptr m ! major \<le> int q \<and> int q < indptr m ! Suc major" using w(1) by linarith
        with q a show "q = p" by blast
      qed
    qed
    then show "fst (get_intXint m row col) = data m ! p" by (simp add: g)
  qed
  have 4: "fst (get_intXint (snd (set_many e55 [1, 3] [2, 4] [7, 9])) 1 2) = 7"
    "fst (get_intXint (snd (set_many e55 [1, 3] [2, 4] [7, 9])) 3 4) = 9"
    "fst (get_intXint (snd (set_many e55 [1, 3] [2, 4] [7, 9])) 0 0) = 0"
    by (simp_all only: e55_set snd_conv ex_after_set_get)
  show ?thesis by (intro conjI) (rule 1 0 2 3 4)+
qed

text \<open>
  On the matrix the set produces: the row 1 stores one entry at the minor index 2.
\<close>

theorem scalar_get_witness:
  "well_formed ex_after_set \<and> swap (fmt ex_after_set) (1, 2) = (1 :: nat, 2 :: nat) \<and>
   (1 :: nat) < fst (swap (fmt ex_after_set) (shape ex_after_set)) \<and>
   snd (get_intXint ex_after_set 1 2) = ex_after_set \<and>
   fst (get_intXint ex_after_set 1 2) = 7"
proof -
  have h: "well_formed ex_after_set" "swap (fmt ex_after_set) (1, 2) = (1 :: nat, 2 :: nat)"
    "(1 :: nat) < fst (swap (fmt ex_after_set) (shape ex_after_set))"
    by (simp_all add: well_formed_def ex_after_set_def)
  have p: "indptr ex_after_set ! 1 \<le> int 0 \<and> int 0 < indptr ex_after_set ! Suc 1 \<and>
               indices ex_after_set ! 0 = int 2 \<and>
               (\<forall>q. indptr ex_after_set ! 1 \<le> int q \<and> int q < indptr ex_after_set ! Suc 1 \<and>
                    indices ex_after_set ! q = int 2 \<longrightarrow> q = 0)"
    by (simp add: ex_after_set_def)
  from scalar_get [OF h] p have "snd (get_intXint ex_after_set 1 2) = ex_after_set"
    "fst (get_intXint ex_after_set 1 2) = data ex_after_set ! 0"
    by blast+
  then show ?thesis using h by (simp add: ex_after_set_def)
qed

section \<open>Batch zero and the entry numbers\<close>

lemma bit_len_25: "bit_len 16777217 = 25"
  by (simp add: bit_len.simps)

lemma float32_of_nat_16777217: "float32_of_nat 16777217 = 16777216"
  by (simp add: float32_of_nat_def bit_len_25 Let_def)

lemma big_n_gt: "16777217 < big_n" "int big_n = 16777218" "\<not> big_n \<le> 16777217"
  by (simp_all add: big_n_def)

lemma ex_big_prepare:
  "prepare_indices ex_big [0] [16777217] = Inr ([0], [16777217], 1, big_n)"
  by (simp add: prepare_indices_def to_index_def check_bounds_def ex_big_def big_n_gt)

lemma ex_big_find:
  "find_entry [0, int big_n] (map int [0..<big_n]) 0 16777217 = Some 16777217"
proof -
  have rp: "row_positions [0, int big_n] 0 = [0..<big_n]"
    by (simp add: row_positions_def)
  have "find (\<lambda>p. p < length (map int [0..<big_n]) \<and> map int [0..<big_n] ! p = 16777217)
          [0..<big_n] = Some 16777217"
  proof (rule find_upt_first)
    show "(0::nat) \<le> 16777217" by simp
    show "16777217 < big_n" by (rule big_n_gt)
    show "16777217 < length (map int [0..<big_n]) \<and> map int [0..<big_n] ! 16777217 = 16777217"
      using big_n_gt(1) by simp
    show "\<forall>q. 0 \<le> q \<and> q < 16777217 \<longrightarrow>
            \<not> (q < length (map int [0..<big_n]) \<and> map int [0..<big_n] ! q = 16777217)"
      using big_n_gt(1) by auto
  qed
  then show ?thesis by (simp only: find_entry_def rp)
qed

lemma ex_big_offsets:
  "entry_offsets ex_big [0] [16777217] (Suc 0) big_n = Inr [16777216]"
proof -
  have "arange_float32 big_n ! 16777217 = 16777216"
    using big_n_gt(1) by (simp add: arange_float32_def float32_of_nat_16777217)
  moreover have "length (arange_float32 big_n) = big_n" by (simp add: arange_float32_def)
  ultimately show ?thesis
    using big_n_gt(1)
    by (simp add: entry_offsets_def csr_matrix_def nnz_def ex_big_def get_arrayXarray_def
        csr_sample_values_def wrap_neg_def ex_big_find)
qed

lemma ex_big_zero:
  "zero_many ex_big [0] [16777217] = (None, ex_big\<lparr>data := (replicate big_n 1)[16777216 := 0]\<rparr>)"
  by (simp add: zero_many_def ex_big_prepare ex_big_offsets scatter_fill_def) (simp add: ex_big_def)

text \<open>
  C7. Batch zero is to overwrite the stored values at the coordinates of the batch and to
  leave every other stored value unchanged. On the matrix \<open>ex_big\<close> it does not:
  zeroing the coordinate (0, 16777217) leaves the value stored there as it is and
  overwrites the value stored at (0, 16777216), because the entry number 16777217 is not
  a float32 and is rounded to 16777216.
\<close>

theorem zero_many_float32_entry_numbers:
  "indices ex_big ! 16777217 = 16777217 \<and> indices ex_big ! 16777216 = 16777216 \<and>
   data ex_big ! 16777217 = 1 \<and> data ex_big ! 16777216 = 1 \<and>
   fst (zero_many ex_big [0] [16777217]) = None \<and>
   data (snd (zero_many ex_big [0] [16777217])) ! 16777217 = 1 \<and>
   data (snd (zero_many ex_big [0] [16777217])) ! 16777216 = 0"
  using big_n_gt(1) by (simp add: ex_big_zero) (simp add: ex_big_def)

section \<open>An index that wraps around\<close>







end
